theory Spec2Isabelle
  imports Main "HOL-Library.Sublist"
begin

section \<open>Python strings\<close>

text \<open>
  A Python \<open>str\<close> is modelled as a \<^typ>\<open>string\<close>, one \<^typ>\<open>char\<close> per code point; the
  model therefore covers texts whose code points are below 256. \<open>len\<close> is \<^const>\<open>length\<close>
  and \<open>+\<close> is \<open>@\<close>.
\<close>

definition newline :: char where
  "newline = CHR 0x0A"

text \<open>
  \<open>str.isspace\<close> on one character. Below 256 the whitespace code points are
  U+0009..U+000D, U+001C..U+0020, U+0085 and U+00A0.
\<close>

definition isspace :: "char \<Rightarrow> bool" where
  "isspace c =
     (let n = (of_char c :: nat)
      in (9 \<le> n \<and> n \<le> 13) \<or> (28 \<le> n \<and> n \<le> 32) \<or> n = 133 \<or> n = 160)"

text \<open>\<open>s.strip()\<close>: whitespace is removed at both ends.\<close>

definition strip :: "string \<Rightarrow> string" where
  "strip s = rev (dropWhile isspace (rev (dropWhile isspace s)))"

text \<open>\<open>s.split(sep)\<close> for a separator of one character; the result is never empty.\<close>

fun split_on :: "char \<Rightarrow> string \<Rightarrow> string list" where
  "split_on sep [] = [[]]"
| "split_on sep (c # cs) =
     (if c = sep then [] # split_on sep cs
      else (case split_on sep cs of
              [] \<Rightarrow> [[c]]
            | l # ls \<Rightarrow> (c # l) # ls))"

text \<open>\<open>'\n'.join(xs)\<close>, used to state the round trip of the chunking.\<close>

fun join_lines :: "string list \<Rightarrow> string" where
  "join_lines [] = []"
| "join_lines [x] = x"
| "join_lines (x # y # ys) = x @ newline # join_lines (y # ys)"

section \<open>The chunking algorithm\<close>

definition MAX_DISCORD_LENGTH :: nat where
  "MAX_DISCORD_LENGTH = 1990"

text \<open>
  The \<open>for line in message.split('\n')\<close> loop of \<open>split_message\<close>, with the two variables
  \<open>chunks\<close> and \<open>current_chunk\<close> it updates passed along. An empty string is falsy.
\<close>

fun split_loop :: "string list \<Rightarrow> string \<Rightarrow> string list \<Rightarrow> string list \<times> string" where
  "split_loop chunks current_chunk [] = (chunks, current_chunk)"
| "split_loop chunks current_chunk (line # lines) =
     (if length current_chunk + length line + 1 > MAX_DISCORD_LENGTH
      then split_loop
             (if current_chunk \<noteq> [] then chunks @ [strip current_chunk] else chunks)
             line lines
      else split_loop chunks
             (if current_chunk \<noteq> [] then current_chunk @ [newline] @ line else line)
             lines)"

definition split_message :: "string \<Rightarrow> string list" where
  "split_message message =
     (case split_loop [] [] (split_on newline message) of
        (chunks, current_chunk) \<Rightarrow>
          if current_chunk \<noteq> [] then chunks @ [strip current_chunk] else chunks)"

section \<open>Other string operations of the dispatcher\<close>

text \<open>
  \<open>s.replace(old, new)\<close>: the occurrences of \<open>old\<close> are replaced from left to right without
  overlap; with an empty \<open>old\<close>, \<open>new\<close> is inserted around every character.
\<close>

function replace :: "string \<Rightarrow> string \<Rightarrow> string \<Rightarrow> string" where
  "replace s old new =
     (if old = [] then new @ concat (map (\<lambda>c. c # new) s)
      else if s = [] then []
      else if prefix old s then new @ replace (drop (length old) s) old new
      else hd s # replace (tl s) old new)"
  by pat_completeness auto
termination
  by (relation "measure (\<lambda>(s, old, new). length s)") auto

text \<open>\<open>str(n)\<close> for a natural number: its decimal digits.\<close>

function str_nat :: "nat \<Rightarrow> string" where
  "str_nat n =
     (if n < 10 then [''0123456789'' ! n]
      else str_nat (n div 10) @ [''0123456789'' ! (n mod 10)])"
  by pat_completeness auto
termination
  by (relation "measure id") auto

text \<open>
  \<open>s.lower()\<close>. Below 256 the characters with a lowercase form are A..Z and U+00C0..U+00DE
  without the multiplication sign U+00D7; the lowercase form is 32 places further.
\<close>

definition lower_char :: "char \<Rightarrow> char" where
  "lower_char c =
     (let n = (of_char c :: nat)
      in if (65 \<le> n \<and> n \<le> 90) \<or> (192 \<le> n \<and> n \<le> 222 \<and> n \<noteq> 215)
         then char_of (n + 32) else c)"

definition lower :: "string \<Rightarrow> string" where
  "lower s = map lower_char s"

text \<open>\<open>sub in s\<close> on strings: \<open>sub\<close> occurs in \<open>s\<close> as a contiguous piece.\<close>

fun str_contains :: "string \<Rightarrow> string \<Rightarrow> bool" where
  "str_contains sub [] = (sub = [])"
| "str_contains sub (c # cs) = (prefix sub (c # cs) \<or> str_contains sub cs)"

section \<open>Values, exceptions and the outside world\<close>

text \<open>
  What \<open>response.json()\<close> returns. An object is a list of bindings in which a key is
  looked up from the front; a float keeps its literal.
\<close>

datatype json =
    JNull
  | JBool bool
  | JInt int
  | JFloat string
  | JStr string
  | JList "json list"
  | JDict "(string \<times> json) list"

text \<open>
  The exceptions that the handlers tell apart (\<open>discord.NotFound\<close>,
  \<open>asyncio.TimeoutError\<close>), the two that the interpreter raises in this code, and any other
  \<open>Exception\<close>. Each carries the text that \<open>str(e)\<close> gives.
\<close>

datatype exn =
    NotFound string
  | TimeoutError string
  | AttributeError string
  | IndexError string
  | Exception string

fun exn_str :: "exn \<Rightarrow> string" where
  "exn_str (NotFound s) = s"
| "exn_str (TimeoutError s) = s"
| "exn_str (AttributeError s) = s"
| "exn_str (IndexError s) = s"
| "exn_str (Exception s) = s"

fun type_name :: "json \<Rightarrow> string" where
  "type_name JNull = ''NoneType''"
| "type_name (JBool b) = ''bool''"
| "type_name (JInt i) = ''int''"
| "type_name (JFloat f) = ''float''"
| "type_name (JStr s) = ''str''"
| "type_name (JList xs) = ''list''"
| "type_name (JDict kvs) = ''dict''"

definition no_attribute :: "string \<Rightarrow> string \<Rightarrow> exn" where
  "no_attribute ty attr =
     AttributeError ([CHR 0x27] @ ty @ [CHR 0x27] @ '' object has no attribute ''
                     @ [CHR 0x27] @ attr @ [CHR 0x27])"

text \<open>\<open>v.get(key, fallback)\<close>: only a dict has the method.\<close>

definition dict_get :: "json \<Rightarrow> string \<Rightarrow> json \<Rightarrow> exn + json" where
  "dict_get v key fallback =
     (case v of
        JDict kvs \<Rightarrow> Inr (case map_of kvs key of Some x \<Rightarrow> x | None \<Rightarrow> fallback)
      | _ \<Rightarrow> Inl (no_attribute (type_name v) ''get''))"

datatype reaction = Hourglass | CrossMark

text \<open>
  The two requests to the formatting API: the JSON body \<open>{"text": text}\<close> posted with the
  bearer credential to \<open>/format/text\<close>, and the multipart form (data, filename, content
  type) posted to \<open>/format/image\<close>.
\<close>

datatype request =
    FormatText string
  | FormatImage string string "string option"

text \<open>
  Everything a dispatch does to the outside: replies, status markers, the read of an
  attachment, and the outbound HTTP calls. An action is recorded when it is attempted.
  Logging is left out.
\<close>

datatype action =
    Reply string
  | AddReaction reaction
  | ClearReactions
  | ReadAttachment string
  | Get string
  | Post request

record response =
  status :: nat
  body_text :: "exn + string"
  body_json :: "exn + json"

record download =
  dl_status :: nat
  dl_content_type :: "string option"
  dl_read :: "exn + string"

record attachment =
  filename :: string
  content_type :: "string option"
  payload :: "exn + string"

record message =
  author :: nat
  content :: string
  attachments :: "attachment list"
  mentions_bot :: bool

text \<open>
  The outside world of one dispatch: the identity of the bot, whether the \<open>n\<close>-th action
  of the dispatch, when it is a call of the chat platform, raises, what the download and
  the formatting API answer (or which exception the call raises, a timeout among them),
  and \<open>str\<close> on a parsed value that is not a string.
\<close>

record world =
  bot_id :: nat
  chat_outcome :: "nat \<Rightarrow> exn option"
  get_outcome :: "exn + download"
  post_outcome :: "exn + response"
  py_str :: "json \<Rightarrow> string"

section \<open>Effects\<close>

text \<open>
  A coroutine of the bot takes the actions attempted so far and returns its result, an
  exception (\<open>Inl\<close>) or a value, with the actions extended.
\<close>

type_synonym 'a io = "action list \<Rightarrow> (exn + 'a) \<times> action list"

definition ret :: "'a \<Rightarrow> 'a io" where
  "ret x tr = (Inr x, tr)"

definition raise :: "exn \<Rightarrow> 'a io" where
  "raise e tr = (Inl e, tr)"

definition of_result :: "exn + 'a \<Rightarrow> 'a io" where
  "of_result r tr = (r, tr)"

definition io_bind :: "'a io \<Rightarrow> ('a \<Rightarrow> 'b io) \<Rightarrow> 'b io" where
  "io_bind m f tr =
     (case m tr of
        (Inl e, tr') \<Rightarrow> (Inl e, tr')
      | (Inr x, tr') \<Rightarrow> f x tr')"

definition io_seq :: "unit io \<Rightarrow> 'b io \<Rightarrow> 'b io" where
  "io_seq m k = io_bind m (\<lambda>_. k)"

text \<open>\<open>try: m except Exception as e: h(e)\<close>\<close>

definition try_except :: "'a io \<Rightarrow> (exn \<Rightarrow> 'a io) \<Rightarrow> 'a io" where
  "try_except m h tr =
     (case m tr of
        (Inl e, tr') \<Rightarrow> h e tr'
      | (Inr x, tr') \<Rightarrow> (Inr x, tr'))"

text \<open>
  \<open>try: m except discord.NotFound: return\<close> followed by \<open>k\<close>: after a \<open>NotFound\<close> the
  coroutine returns, any other exception goes on, and otherwise \<open>k\<close> runs.
\<close>

definition unless_not_found :: "unit io \<Rightarrow> unit io \<Rightarrow> unit io" where
  "unless_not_found m k tr =
     (case m tr of
        (Inl (NotFound s), tr') \<Rightarrow> (Inr (), tr')
      | (Inl e, tr') \<Rightarrow> (Inl e, tr')
      | (Inr u, tr') \<Rightarrow> k tr')"

text \<open>A call of the chat platform: \<open>message.reply\<close>, \<open>add_reaction\<close>, \<open>clear_reactions\<close>.\<close>

definition chat :: "world \<Rightarrow> action \<Rightarrow> unit io" where
  "chat w a tr =
     (case chat_outcome w (length tr) of
        None \<Rightarrow> (Inr (), tr @ [a])
      | Some e \<Rightarrow> (Inl e, tr @ [a]))"

definition read_attachment :: "attachment \<Rightarrow> string io" where
  "read_attachment a tr = (payload a, tr @ [ReadAttachment (filename a)])"

definition http_get :: "world \<Rightarrow> string \<Rightarrow> download io" where
  "http_get w url tr = (get_outcome w, tr @ [Get url])"

definition http_post :: "world \<Rightarrow> request \<Rightarrow> response io" where
  "http_post w r tr = (post_outcome w, tr @ [Post r])"

section \<open>The relay pipeline\<close>

definition first_reply :: "string \<Rightarrow> string" where
  "first_reply chunk =
     ''```'' @ [newline] @ chunk @ [newline] @ ''```'' @ [newline, newline]
     @ ''Please double-check all info as Better Lover can make mistakes.''"

definition follow_up :: "string \<Rightarrow> string" where
  "follow_up chunk =
     ''```'' @ [newline] @ ''(continued...)'' @ [newline] @ chunk @ [newline] @ ''```''"

text \<open>\<open>for chunk in chunks[1:]: await message.reply(...)\<close>\<close>

fun reply_rest :: "world \<Rightarrow> string list \<Rightarrow> unit io" where
  "reply_rest w [] = ret ()"
| "reply_rest w (chunk # chunks) =
     io_seq (chat w (Reply (follow_up chunk))) (reply_rest w chunks)"

text \<open>A value inside an f-string: a string as it is, anything else through \<open>str\<close>.\<close>

definition format_value :: "world \<Rightarrow> json \<Rightarrow> string" where
  "format_value w v = (case v of JStr s \<Rightarrow> s | _ \<Rightarrow> py_str w v)"

text \<open>\<open>split_message(v)\<close> on a parsed value: \<open>v.split\<close> exists on a string only.\<close>

definition split_message_of :: "json \<Rightarrow> exn + string list" where
  "split_message_of v =
     (case v of
        JStr s \<Rightarrow> Inr (split_message s)
      | _ \<Rightarrow> Inl (no_attribute (type_name v) ''split''))"

text \<open>
  The three coroutines \<open>process_text\<close>, \<open>process_image\<close> and \<open>process_image_url\<close> repeat the
  same code from the status check of the API response on, and the same two handlers;
  each repeated piece is one definition here.

  From \<open>formatted_dates = result.get(...)\<close> to the last follow-up reply. \<open>chunks[0]\<close> is
  evaluated inside the first \<open>try\<close>, whose handler takes \<open>discord.NotFound\<close> only.
\<close>

definition reply_result :: "world \<Rightarrow> json \<Rightarrow> unit io" where
  "reply_result w result =
     io_bind (of_result (dict_get result ''formatted_dates'' (JStr ''Error: No dates found'')))
       (\<lambda>formatted_dates.
     io_bind (of_result (split_message_of formatted_dates))
       (\<lambda>chunks.
     unless_not_found
       (io_bind (case chunks of
                   [] \<Rightarrow> raise (IndexError ''list index out of range'')
                 | chunk # _ \<Rightarrow> ret chunk)
          (\<lambda>chunk. chat w (Reply (first_reply chunk))))
       (if length chunks > 1
        then unless_not_found (reply_rest w (tl chunks)) (ret ())
        else ret ())))"

text \<open>
  The \<open>try: ... except:\<close> around \<open>response.json()\<close> and \<open>.get('detail', 'Unknown error')\<close>
  on a response that is not 200: whatever is raised there, the raw text is taken.
\<close>

definition error_detail :: "world \<Rightarrow> response \<Rightarrow> string \<Rightarrow> string" where
  "error_detail w resp error_text =
     (case body_json resp of
        Inl e \<Rightarrow> error_text
      | Inr error_json \<Rightarrow>
          (case dict_get error_json ''detail'' (JStr ''Unknown error'') of
             Inl e \<Rightarrow> error_text
           | Inr detail \<Rightarrow> format_value w detail))"

text \<open>From \<open>if response.status != 200\<close> on, inside the \<open>try\<close> of the coroutine.\<close>

definition relay_response :: "world \<Rightarrow> response \<Rightarrow> unit io" where
  "relay_response w resp =
     (if status resp \<noteq> 200
      then io_bind (of_result (body_text resp))
             (\<lambda>error_text.
                io_seq (chat w ClearReactions)
               (io_seq (chat w (AddReaction CrossMark))
                       (chat w (Reply (''Error: '' @ error_detail w resp error_text)))))
      else io_bind (of_result (body_json resp)) (reply_result w))"

text \<open>
  The body of both handlers of a coroutine: the markers are replaced and the text is sent,
  and a \<open>discord.NotFound\<close> raised on the way is logged and dropped.
\<close>

definition report_failure :: "world \<Rightarrow> string \<Rightarrow> unit io" where
  "report_failure w text =
     unless_not_found
       (io_seq (chat w ClearReactions)
       (io_seq (chat w (AddReaction CrossMark))
               (chat w (Reply text))))
       (ret ())"

text \<open>\<open>except asyncio.TimeoutError: ... except Exception as e: ...\<close>\<close>

definition handle_errors :: "world \<Rightarrow> unit io \<Rightarrow> unit io" where
  "handle_errors w body =
     try_except body
       (\<lambda>e. case e of
               TimeoutError s \<Rightarrow> report_failure w ''Error: Request timed out. Please try again.''
             | _ \<Rightarrow> report_failure w (''Error: '' @ exn_str e))"

definition process_text :: "world \<Rightarrow> string \<Rightarrow> unit io" where
  "process_text w text =
     handle_errors w
       (io_seq (chat w (AddReaction Hourglass))
       (io_bind (http_post w (FormatText text)) (relay_response w)))"

definition process_image :: "world \<Rightarrow> attachment \<Rightarrow> unit io" where
  "process_image w a =
     handle_errors w
       (io_seq (chat w (AddReaction Hourglass))
       (io_bind (read_attachment a)
          (\<lambda>image_data.
       io_bind (http_post w (FormatImage image_data (filename a) (content_type a)))
         (relay_response w))))"

definition process_image_url :: "world \<Rightarrow> string \<Rightarrow> unit io" where
  "process_image_url w url =
     handle_errors w
       (io_seq (chat w (AddReaction Hourglass))
       (io_bind (http_get w url)
          (\<lambda>d.
             if dl_status d \<noteq> 200
             then raise (Exception (''Failed to download image: HTTP '' @ str_nat (dl_status d)))
             else
               let ctype = (case dl_content_type d of Some t \<Rightarrow> t | None \<Rightarrow> ''image/jpeg'');
                   fname = last (split_on (CHR ''/'') url)
               in io_bind (of_result (dl_read d))
                    (\<lambda>image_data.
                  io_bind (http_post w (FormatImage image_data fname (Some ctype)))
                    (relay_response w)))))"

section \<open>The dispatcher\<close>

definition is_image_url :: "string \<Rightarrow> bool" where
  "is_image_url text =
     ((prefix ''http://'' text \<or> prefix ''https://'' text)
      \<and> list_ex (\<lambda>ext. str_contains ext (lower text))
           [''.jpg'', ''.jpeg'', ''.png'', ''.gif'', ''.webp''])"

text \<open>
  The conditions of the \<open>if\<close>/\<open>elif\<close>/\<open>else\<close> of \<open>on_message\<close>, as the kind of request chosen.
  The content type of an attachment may be \<open>None\<close>, on which \<open>.startswith\<close> raises.
\<close>

datatype kind = ImageAttachment attachment | ImageUrl | Text

definition classify :: "message \<Rightarrow> string \<Rightarrow> exn + kind" where
  "classify m text =
     (case attachments m of
        [] \<Rightarrow> Inr (if is_image_url text then ImageUrl else Text)
      | a # _ \<Rightarrow>
          (case content_type a of
             None \<Rightarrow> Inl (no_attribute ''NoneType'' ''startswith'')
           | Some t \<Rightarrow>
               Inr (if prefix ''image/'' t then ImageAttachment a
                    else if is_image_url text then ImageUrl else Text)))"

text \<open>\<open>message.content\<close> without the two forms of the mention of the bot, stripped.\<close>

definition stripped_content :: "world \<Rightarrow> message \<Rightarrow> string" where
  "stripped_content w m =
     strip (replace (replace (content m) (''<@'' @ str_nat (bot_id w) @ ''>'') [])
                    (''<@!'' @ str_nat (bot_id w) @ ''>'') [])"

definition on_message :: "world \<Rightarrow> message \<Rightarrow> unit io" where
  "on_message w m =
     (if \<not> mentions_bot m then ret ()
      else if author m = bot_id w then ret ()
      else
        let text = stripped_content w m
        in if text = [] \<and> attachments m = []
           then chat w (Reply ''Please provide some tour dates, an image, or an image URL.'')
           else
             io_seq (chat w (AddReaction Hourglass))
               (try_except
                  (io_bind (of_result (classify m text))
                     (\<lambda>k. case k of
                             ImageAttachment a \<Rightarrow> process_image w a
                           | ImageUrl \<Rightarrow> process_image_url w text
                           | Text \<Rightarrow> process_text w text))
                  (\<lambda>e. io_seq (chat w ClearReactions)
                       (io_seq (chat w (AddReaction CrossMark))
                               (chat w (Reply (''Error: '' @ exn_str e)))))))"

section \<open>Example inputs\<close>

text \<open>
  A world in which the bot has the identity 7 and every call of the chat platform
  succeeds, a message without attachments, an attachment and a download.
\<close>

abbreviation example_world :: "exn + download \<Rightarrow> exn + response \<Rightarrow> world" where
  "example_world g p \<equiv>
     \<lparr>bot_id = 7, chat_outcome = (\<lambda>n. None), get_outcome = g, post_outcome = p,
      py_str = (\<lambda>v. [])\<rparr>"

abbreviation example_message :: "nat \<Rightarrow> string \<Rightarrow> bool \<Rightarrow> message" where
  "example_message a c b \<equiv> \<lparr>author = a, content = c, attachments = [], mentions_bot = b\<rparr>"

abbreviation example_attachment :: attachment where
  "example_attachment \<equiv>
     \<lparr>filename = ''tour.png'', content_type = Some ''image/png'', payload = Inr ''PNG''\<rparr>"

abbreviation example_download :: download where
  "example_download \<equiv>
     \<lparr>dl_status = 200, dl_content_type = None, dl_read = Inr ''PNG''\<rparr>"

section \<open>Notions used in the statements and proofs\<close>

text \<open>
  The chunks that \<open>split_message\<close> returns when its loop is in the state
  (\<open>chunks\<close>, \<open>current_chunk\<close>) with \<open>lines\<close> still to come.
\<close>

definition resume :: "string list \<Rightarrow> string \<Rightarrow> string list \<Rightarrow> string list" where
  "resume chunks current_chunk lines =
     (case split_loop chunks current_chunk lines of
        (chunks', current_chunk') \<Rightarrow>
          if current_chunk' \<noteq> [] then chunks' @ [strip current_chunk'] else chunks')"

text \<open>The lines of a text, each stripped, without those that are then empty.\<close>

definition nonblank_lines :: "string \<Rightarrow> string list" where
  "nonblank_lines s = filter (\<lambda>l. l \<noteq> []) (map strip (split_on newline s))"

section \<open>Facts about splitting, joining and stripping\<close>

lemma split_on_not_Nil: "split_on sep s \<noteq> []"
  by (induction s) (auto split: list.splits)

lemma split_on_no_sep: "l \<in> set (split_on sep s) \<Longrightarrow> sep \<notin> set l"
  by (induction s arbitrary: l) (auto split: list.splits if_splits)

lemma split_on_single: "sep \<notin> set s \<Longrightarrow> split_on sep s = [s]"
  by (induction s) auto

lemma split_on_Cons_sep: "sep \<notin> set l \<Longrightarrow> split_on sep (l @ sep # b) = l # split_on sep b"
  by (induction l) (auto split: list.splits simp: split_on_not_Nil)

lemma split_on_append: "split_on sep (a @ sep # b) = split_on sep a @ split_on sep b"
proof (induction a)
  case Nil
  show ?case by simp
next
  case (Cons c a)
  obtain l ls where e: "split_on sep a = l # ls"
    using split_on_not_Nil[of sep a] by (cases "split_on sep a") auto
  show ?case using Cons e by simp
qed

lemma split_on_snoc:
  "split_on sep (s @ [c]) =
     (if c = sep then split_on sep s @ [[]]
      else butlast (split_on sep s) @ [last (split_on sep s) @ [c]])"
proof (induction s)
  case Nil
  show ?case by simp
next
  case (Cons d s)
  obtain l ls where e: "split_on sep s = l # ls"
    using split_on_not_Nil[of sep s] by (cases "split_on sep s") auto
  show ?case using Cons e by (cases ls) (auto split: list.splits)
qed

lemma split_on_rev: "split_on sep (rev s) = rev (map rev (split_on sep s))"
proof (induction s)
  case Nil
  show ?case by simp
next
  case (Cons c s)
  obtain l ls where e: "split_on sep s = l # ls"
    using split_on_not_Nil[of sep s] by (cases "split_on sep s") auto
  show ?case using Cons e by (simp add: split_on_snoc butlast_append rev_map)
qed

lemma join_lines_Cons: "ls \<noteq> [] \<Longrightarrow> join_lines (l # ls) = l @ newline # join_lines ls"
  by (cases ls) auto

lemma join_split: "join_lines (split_on newline s) = s"
proof (induction s)
  case Nil
  show ?case by simp
next
  case (Cons c cs)
  show ?case
  proof (cases "c = newline")
    case True
    then show ?thesis using Cons by (simp add: join_lines_Cons split_on_not_Nil)
  next
    case False
    obtain l ls where e: "split_on newline cs = l # ls"
      using split_on_not_Nil[of newline cs] by (cases "split_on newline cs") auto
    show ?thesis using False Cons e by (cases ls) auto
  qed
qed

lemma split_join:
  "ls \<noteq> [] \<Longrightarrow> \<forall>l\<in>set ls. newline \<notin> set l \<Longrightarrow> split_on newline (join_lines ls) = ls"
proof (induction ls rule: join_lines.induct)
  case 1
  then show ?case by simp
next
  case (2 x)
  then show ?case by (simp add: split_on_single)
next
  case (3 x y ys)
  then show ?case by (simp add: split_on_Cons_sep)
qed

text \<open>Stripping never lengthens, leaves a text with no whitespace at its ends alone, and
  its two trims can be done in either order.\<close>

lemma length_strip: "length (strip s) \<le> length s"
proof -
  have "length (strip s) = length (dropWhile isspace (rev (dropWhile isspace s)))"
    by (simp add: strip_def)
  also have "\<dots> \<le> length (rev (dropWhile isspace s))"
    by (rule length_dropWhile_le)
  also have "\<dots> = length (dropWhile isspace s)" by simp
  also have "\<dots> \<le> length s" by (rule length_dropWhile_le)
  finally show ?thesis .
qed

lemma strip_trimmed:
  assumes "s \<noteq> []" "\<not> isspace (hd s)" "\<not> isspace (last s)"
  shows "strip s = s"
proof -
  have a: "dropWhile isspace s = s" using assms by (cases s) auto
  have b: "dropWhile isspace (rev s) = rev s"
    using assms by (cases "rev s") (auto simp: last_rev[symmetric] hd_rev)
  show ?thesis by (simp add: strip_def a b)
qed

lemma trims_commute:
  "rev (dropWhile P (rev (dropWhile P m))) = dropWhile P (rev (dropWhile P (rev m)))"
proof (induction m)
  case Nil
  show ?case by simp
next
  case (Cons c m)
  show ?case
  proof (cases "P c")
    case False
    then show ?thesis by (simp add: dropWhile_append)
  next
    case True
    show ?thesis
    proof (cases "\<forall>x\<in>set m. P x")
      case True
      then have "dropWhile P m = []" "dropWhile P (rev m) = []" by simp_all
      then show ?thesis using \<open>P c\<close> True by (simp add: dropWhile_append del: dropWhile_eq_Nil_conv)
    next
      case False
      then show ?thesis using \<open>P c\<close> Cons by (auto simp add: dropWhile_append)
    qed
  qed
qed

lemma strip_rev: "strip (rev s) = rev (strip s)"
  using trims_commute[of isspace "rev s"] by (simp add: strip_def)

lemma strip_space_Cons: "isspace c \<Longrightarrow> strip (c # s) = strip s"
  by (simp add: strip_def)

section \<open>The loop of the chunking algorithm\<close>

lemma resume_Nil: "resume chunks cur [] = (if cur \<noteq> [] then chunks @ [strip cur] else chunks)"
  by (simp add: resume_def)

lemma resume_Cons:
  "resume chunks cur (line # lines) =
     (if length cur + length line + 1 > MAX_DISCORD_LENGTH
      then resume (if cur \<noteq> [] then chunks @ [strip cur] else chunks) line lines
      else resume chunks (if cur \<noteq> [] then cur @ [newline] @ line else line) lines)"
  by (simp add: resume_def)

lemma split_message_resume: "split_message message = resume [] [] (split_on newline message)"
  by (simp add: split_message_def resume_def)

lemma resume_acc: "resume chunks cur lines = chunks @ resume [] cur lines"
proof (induction lines arbitrary: chunks cur)
  case Nil
  show ?case by (simp add: resume_Nil)
next
  case (Cons line lines)
  show ?case
    using Cons[of "chunks @ [strip cur]" line] Cons[of "[strip cur]" line] Cons[of chunks]
    by (simp add: resume_Cons)
qed

lemma resume_empty_buffer: "resume [] [] (line # lines) = resume [] line lines"
  by (simp add: resume_Cons)

lemma resume_append:
  "resume chunks cur (pre @ rest) =
     (case split_loop chunks cur pre of (c, k) \<Rightarrow> resume c k rest)"
  by (induction pre arbitrary: chunks cur) (simp_all add: resume_def)

lemma resume_not_Nil: "cur \<noteq> [] \<Longrightarrow> resume chunks cur lines \<noteq> []"
proof (induction lines arbitrary: chunks cur)
  case Nil
  then show ?case by (simp add: resume_Nil)
next
  case (Cons line lines)
  show ?case
  proof (cases "length cur + length line + 1 > MAX_DISCORD_LENGTH")
    case True
    have "resume (chunks @ [strip cur]) line lines = (chunks @ [strip cur]) @ resume [] line lines"
      by (rule resume_acc)
    then show ?thesis using True Cons.prems by (simp add: resume_Cons)
  next
    case False
    then show ?thesis using Cons.prems Cons.IH[of "cur @ [newline] @ line" chunks]
      by (simp add: resume_Cons)
  qed
qed

lemma resume_of_join:
  assumes "\<forall>l\<in>set ls. newline \<notin> set l"
  shows "split_message (join_lines ls) = resume [] [] ls"
proof (cases "ls = []")
  case True
  then show ?thesis by (simp add: split_message_resume resume_Cons resume_Nil)
next
  case False
  then show ?thesis using assms by (simp add: split_message_resume split_join)
qed

text \<open>A line longer than the limit closes the chunk before it and is closed by whatever
  comes after it.\<close>

lemma resume_oversized:
  assumes "MAX_DISCORD_LENGTH < length line"
  shows "resume chunks line post = chunks @ strip line # resume [] [] post"
proof (cases post)
  case Nil
  with assms show ?thesis by (auto simp: resume_Nil)
next
  case (Cons p ps)
  with assms show ?thesis
    using resume_acc[of "chunks @ [strip line]" p ps]
    by (auto simp: resume_Cons)
qed

lemma resume_split_at_oversized:
  assumes "MAX_DISCORD_LENGTH < length line"
  shows "resume [] [] (pre @ line # post) = resume [] [] pre @ strip line # resume [] [] post"
proof -
  obtain c k where ck: "split_loop [] [] pre = (c, k)" by (cases "split_loop [] [] pre")
  have "resume [] [] (pre @ line # post) = resume c k (line # post)"
    by (simp add: resume_append ck)
  also have "\<dots> = resume (if k \<noteq> [] then c @ [strip k] else c) line post"
    using assms by (simp add: resume_Cons)
  also have "\<dots> = (if k \<noteq> [] then c @ [strip k] else c) @ strip line # resume [] [] post"
    using assms by (rule resume_oversized)
  also have "(if k \<noteq> [] then c @ [strip k] else c) = resume [] [] pre"
    by (simp add: resume_def ck)
  finally show ?thesis .
qed

text \<open>When no line is longer than the limit, no chunk is.\<close>

lemma resume_bounded:
  assumes "\<forall>c\<in>set chunks. length c \<le> MAX_DISCORD_LENGTH"
    and "length cur \<le> MAX_DISCORD_LENGTH"
    and "\<forall>l\<in>set lines. length l \<le> MAX_DISCORD_LENGTH"
  shows "\<forall>c\<in>set (resume chunks cur lines). length c \<le> MAX_DISCORD_LENGTH"
  using assms
proof (induction lines arbitrary: chunks cur)
  case Nil
  then show ?case using length_strip[of cur] by (auto simp: resume_Nil)
next
  case (Cons line lines)
  show ?case
  proof (cases "length cur + length line + 1 > MAX_DISCORD_LENGTH")
    case True
    have "\<forall>c\<in>set (if cur \<noteq> [] then chunks @ [strip cur] else chunks). length c \<le> MAX_DISCORD_LENGTH"
      using Cons.prems length_strip[of cur] by auto
    then have "\<forall>c\<in>set (resume (if cur \<noteq> [] then chunks @ [strip cur] else chunks) line lines).
                 length c \<le> MAX_DISCORD_LENGTH"
      using Cons.prems by (intro Cons.IH) auto
    then show ?thesis using True by (simp only: resume_Cons if_True)
  next
    case False
    have "length (if cur \<noteq> [] then cur @ [newline] @ line else line) \<le> MAX_DISCORD_LENGTH"
      using False Cons.prems by auto
    then have "\<forall>c\<in>set (resume chunks (if cur \<noteq> [] then cur @ [newline] @ line else line) lines).
                 length c \<le> MAX_DISCORD_LENGTH"
      using Cons.prems by (intro Cons.IH) auto
    then show ?thesis using False by (simp only: resume_Cons if_False)
  qed
qed

lemma split_message_bounded:
  assumes "\<forall>l\<in>set (split_on newline message). length l \<le> MAX_DISCORD_LENGTH"
  shows "\<forall>c\<in>set (split_message message). length c \<le> MAX_DISCORD_LENGTH"
  unfolding split_message_resume using assms by (intro resume_bounded) auto

text \<open>Lines that are not empty and have no whitespace at their ends come back exactly.\<close>

lemma resume_join_trimmed:
  assumes "cur \<noteq> []" "\<not> isspace (hd cur)" "\<not> isspace (last cur)"
    and "\<forall>l\<in>set lines. l \<noteq> [] \<and> \<not> isspace (hd l) \<and> \<not> isspace (last l)"
  shows "join_lines (resume [] cur lines) = join_lines (cur # lines)"
  using assms
proof (induction lines arbitrary: cur)
  case Nil
  then show ?case by (simp add: resume_Nil strip_trimmed)
next
  case (Cons line lines)
  have line: "line \<noteq> []" "\<not> isspace (hd line)" "\<not> isspace (last line)"
    and rest: "\<forall>l\<in>set lines. l \<noteq> [] \<and> \<not> isspace (hd l) \<and> \<not> isspace (last l)"
    using Cons.prems(4) by auto
  show ?case
  proof (cases "length cur + length line + 1 > MAX_DISCORD_LENGTH")
    case True
    have "resume [] cur (line # lines) = resume [strip cur] line lines"
      using True Cons.prems(1) by (simp add: resume_Cons)
    also have "\<dots> = cur # resume [] line lines"
      using resume_acc[of "[strip cur]" line lines] Cons.prems(1-3) by (simp add: strip_trimmed)
    finally have "join_lines (resume [] cur (line # lines))
        = cur @ newline # join_lines (resume [] line lines)"
      using resume_not_Nil[OF line(1), of "[]" lines] by (simp add: join_lines_Cons)
    also have "join_lines (resume [] line lines) = join_lines (line # lines)"
      using line rest by (rule Cons.IH)
    finally show ?thesis by simp
  next
    case False
    let ?k = "cur @ newline # line"
    have "resume [] cur (line # lines) = resume [] ?k lines"
      using False Cons.prems(1) by (simp add: resume_Cons)
    also have "join_lines \<dots> = join_lines (?k # lines)"
      using Cons.prems(1,2) line rest by (intro Cons.IH) auto
    also have "\<dots> = join_lines (cur # line # lines)"
      by (cases lines) auto
    finally show ?thesis .
  qed
qed

lemma split_message_roundtrip_trimmed:
  assumes "\<forall>l\<in>set (split_on newline message). l \<noteq> [] \<and> \<not> isspace (hd l) \<and> \<not> isspace (last l)"
  shows "join_lines (split_message message) = message"
proof -
  obtain l ls where e: "split_on newline message = l # ls"
    using split_on_not_Nil[of newline message] by (cases "split_on newline message") auto
  have "split_message message = resume [] l ls"
    by (simp add: split_message_resume e resume_empty_buffer)
  also have "join_lines \<dots> = join_lines (l # ls)"
    using assms unfolding e by (intro resume_join_trimmed) auto
  also have "\<dots> = message" using join_split[of message] by (simp add: e)
  finally show ?thesis .
qed

text \<open>In general the stripped, non-blank lines come back.\<close>

lemma nonblank_lines_append:
  "nonblank_lines (a @ newline # b) = nonblank_lines a @ nonblank_lines b"
  by (simp add: nonblank_lines_def split_on_append)

lemma nonblank_lines_Nil: "nonblank_lines [] = []"
  by (simp add: nonblank_lines_def strip_def)

lemma nonblank_lines_join: "nonblank_lines (join_lines cs) = concat (map nonblank_lines cs)"
  by (induction cs rule: join_lines.induct) (simp_all add: nonblank_lines_Nil nonblank_lines_append)

lemma nonblank_lines_space_Cons:
  assumes "isspace c"
  shows "nonblank_lines (c # s) = nonblank_lines s"
proof (cases "c = newline")
  case True
  then show ?thesis using nonblank_lines_append[of "[]" s] by (simp add: nonblank_lines_Nil)
next
  case False
  obtain l ls where e: "split_on newline s = l # ls"
    using split_on_not_Nil[of newline s] by (cases "split_on newline s") auto
  show ?thesis using False e assms by (simp add: nonblank_lines_def strip_space_Cons)
qed

lemma nonblank_lines_ltrim: "nonblank_lines (dropWhile isspace s) = nonblank_lines s"
  by (induction s) (simp_all add: nonblank_lines_space_Cons)

lemma nonblank_lines_rev: "nonblank_lines (rev s) = rev (map rev (nonblank_lines s))"
proof -
  have "filter (\<lambda>l. l \<noteq> []) (map strip (rev (map rev ls)))
          = rev (map rev (filter (\<lambda>l. l \<noteq> []) (map strip ls)))" for ls
    by (induction ls) (simp_all add: strip_rev)
  then show ?thesis by (simp add: nonblank_lines_def split_on_rev)
qed

lemma nonblank_lines_strip: "nonblank_lines (strip s) = nonblank_lines s"
proof -
  have "nonblank_lines (strip s)
          = rev (map rev (nonblank_lines (dropWhile isspace (rev (dropWhile isspace s)))))"
    unfolding strip_def by (rule nonblank_lines_rev)
  also have "\<dots> = rev (map rev (nonblank_lines (rev (dropWhile isspace s))))"
    by (simp only: nonblank_lines_ltrim)
  also have "\<dots> = nonblank_lines (dropWhile isspace s)"
    by (simp add: nonblank_lines_rev rev_map)
  finally show ?thesis by (simp only: nonblank_lines_ltrim)
qed

lemma nonblank_lines_resume:
  "concat (map nonblank_lines (resume chunks cur lines))
     = concat (map nonblank_lines chunks) @ nonblank_lines cur @ concat (map nonblank_lines lines)"
proof (induction lines arbitrary: chunks cur)
  case Nil
  show ?case by (simp add: resume_Nil nonblank_lines_strip nonblank_lines_Nil)
next
  case (Cons line lines)
  show ?case
    by (simp add: resume_Cons Cons nonblank_lines_strip nonblank_lines_Nil nonblank_lines_append)
qed

lemma nonblank_lines_lines:
  "\<forall>l\<in>set ls. newline \<notin> set l \<Longrightarrow>
     concat (map nonblank_lines ls) = filter (\<lambda>l. l \<noteq> []) (map strip ls)"
  by (induction ls) (simp_all add: nonblank_lines_def split_on_single)

lemma split_message_nonblank_lines:
  "nonblank_lines (join_lines (split_message message)) = nonblank_lines message"
proof -
  have "nonblank_lines (join_lines (split_message message))
          = concat (map nonblank_lines (split_on newline message))"
    by (simp add: nonblank_lines_join split_message_resume nonblank_lines_resume nonblank_lines_Nil)
  also have "\<dots> = nonblank_lines message"
    using split_on_no_sep[of _ newline message]
    by (subst nonblank_lines_lines) (auto simp: nonblank_lines_def)
  finally show ?thesis .
qed

section \<open>Properties of the chunking algorithm\<close>

text \<open>
  C9. Splitting the empty string yields no chunk at all: its only line is empty, so the
  buffer stays empty and nothing is flushed.
\<close>

theorem split_message_empty: "split_message [] = []"
  by (simp add: split_message_def MAX_DISCORD_LENGTH_def)

text \<open>
  C1. Not every chunk is within the limit of 1990 characters: an input that is a single
  line of 1991 letters comes back as one chunk of 1991 characters.
\<close>

theorem split_message_chunk_over_limit:
  "split_message (replicate 1991 (CHR ''a'')) = [replicate 1991 (CHR ''a'')]
   \<and> MAX_DISCORD_LENGTH < length (replicate 1991 (CHR ''a''))"
proof -
  have "\<not> isspace (CHR ''a'')" by (simp add: isspace_def)
  then have "strip (replicate 1991 (CHR ''a'')) = replicate 1991 (CHR ''a'')"
    by (simp add: strip_trimmed hd_replicate last_replicate)
  then show ?thesis
    by (simp add: split_message_def split_on_single newline_def MAX_DISCORD_LENGTH_def)
qed

text \<open>
  C2, as stated, fails: the chunks of the two lines \<open>" A"\<close> and \<open>""\<close> are the single
  chunk \<open>"A"\<close>, whose join has one line, and not the first of the two.
\<close>

theorem split_message_roundtrip_counterexample:
  "split_on newline (join_lines (split_message ('' A'' @ [newline])))
     \<noteq> split_on newline ('' A'' @ [newline])"
  by (simp add: split_message_def newline_def MAX_DISCORD_LENGTH_def strip_def isspace_def)

text \<open>
  C2, amended. The chunks joined by newlines have the same stripped non-blank lines as the
  input, in the same order; and when every line of the input is non-empty and neither
  begins nor ends with whitespace, the chunks joined by newlines are the input itself.
\<close>

theorem split_message_covers_lines:
  "nonblank_lines (join_lines (split_message message)) = nonblank_lines message
   \<and> ((\<forall>l\<in>set (split_on newline message).
          l \<noteq> [] \<and> \<not> isspace (hd l) \<and> \<not> isspace (last l))
        \<longrightarrow> join_lines (split_message message) = message)"
  using split_message_nonblank_lines split_message_roundtrip_trimmed by blast

theorem split_message_covers_lines_witness:
  "split_on newline (''A'' @ [newline] @ ''B'') = [''A'', ''B'']
   \<and> nonblank_lines (join_lines (split_message (''A'' @ [newline] @ ''B''))) = [''A'', ''B'']
   \<and> join_lines (split_message (''A'' @ [newline] @ ''B'')) = ''A'' @ [newline] @ ''B''"
proof -
  have l: "split_on newline (''A'' @ [newline] @ ''B'') = [''A'', ''B'']"
    by (simp add: newline_def)
  have h: "\<forall>l\<in>set (split_on newline (''A'' @ [newline] @ ''B'')).
      l \<noteq> [] \<and> \<not> isspace (hd l) \<and> \<not> isspace (last l)"
    by (simp add: newline_def isspace_def)
  have n: "nonblank_lines (''A'' @ [newline] @ ''B'') = [''A'', ''B'']"
    by (simp add: nonblank_lines_def newline_def strip_def isspace_def)
  show ?thesis
    using l h n split_message_covers_lines[of "''A'' @ [newline] @ ''B''"] by metis
qed

text \<open>
  C4. A line longer than the limit is a chunk of its own, the line stripped: the chunks of
  the message are the chunks of the lines before it, then this chunk, then the chunks of
  the lines after it.
\<close>

theorem oversized_line_standalone:
  assumes "split_on newline message = pre @ line # post"
    and "MAX_DISCORD_LENGTH < length line"
  shows "split_message message =
           split_message (join_lines pre) @ strip line # split_message (join_lines post)"
proof -
  have ns: "\<forall>l\<in>set (pre @ line # post). newline \<notin> set l"
    using split_on_no_sep[of _ newline message] assms(1) by metis
  have "split_message message = resume [] [] (pre @ line # post)"
    by (simp add: split_message_resume assms(1))
  also have "\<dots> = resume [] [] pre @ strip line # resume [] [] post"
    using assms(2) by (rule resume_split_at_oversized)
  finally show ?thesis using ns by (simp add: resume_of_join)
qed

theorem oversized_line_standalone_witness:
  "split_on newline (''ab'' @ newline # replicate 1991 (CHR ''x'') @ newline # ''cd'')
     = [''ab''] @ replicate 1991 (CHR ''x'') # [''cd'']
   \<and> MAX_DISCORD_LENGTH < length (replicate 1991 (CHR ''x''))
   \<and> split_message (''ab'' @ newline # replicate 1991 (CHR ''x'') @ newline # ''cd'')
     = [''ab'', replicate 1991 (CHR ''x''), ''cd'']"
proof -
  have h1: "split_on newline (''ab'' @ newline # replicate 1991 (CHR ''x'') @ newline # ''cd'')
     = [''ab''] @ replicate 1991 (CHR ''x'') # [''cd'']"
    using split_on_Cons_sep[of newline "''ab''" "replicate 1991 (CHR ''x'') @ newline # ''cd''"]
      split_on_Cons_sep[of newline "replicate 1991 (CHR ''x'')" "''cd''"]
      split_on_single[of newline "''cd''"]
    by (simp add: newline_def)
  have h2: "MAX_DISCORD_LENGTH < length (replicate 1991 (CHR ''x''))"
    by (simp add: MAX_DISCORD_LENGTH_def)
  have s: "strip (replicate 1991 (CHR ''x'')) = replicate 1991 (CHR ''x'')"
    by (simp add: strip_trimmed hd_replicate last_replicate isspace_def)
  have e: "split_message ''ab'' = [''ab'']" "split_message ''cd'' = [''cd'']"
    by (simp_all add: split_message_def newline_def MAX_DISCORD_LENGTH_def strip_def isspace_def)
  show ?thesis
    using oversized_line_standalone[OF h1 h2] h1 h2 s e by simp
qed

section \<open>Facts about the dispatcher and the relay pipeline\<close>

lemmas io_defs = ret_def raise_def of_result_def io_bind_def io_seq_def try_except_def
  unless_not_found_def chat_def read_attachment_def http_get_def http_post_def

lemma str_contains_iff: "str_contains sub s \<longleftrightarrow> (\<exists>pre post. s = pre @ sub @ post)"
proof (induction s)
  case Nil
  show ?case by auto
next
  case (Cons c cs)
  show ?case
  proof
    assume "str_contains sub (c # cs)"
    then consider "prefix sub (c # cs)" | "str_contains sub cs" by auto
    then show "\<exists>pre post. c # cs = pre @ sub @ post"
    proof cases
      case 1
      then obtain post where "c # cs = sub @ post" by (auto simp: prefix_def)
      then have "c # cs = [] @ sub @ post" by simp
      then show ?thesis by blast
    next
      case 2
      then obtain pre post where "cs = pre @ sub @ post" using Cons by blast
      then have "c # cs = (c # pre) @ sub @ post" by simp
      then show ?thesis by blast
    qed
  next
    assume "\<exists>pre post. c # cs = pre @ sub @ post"
    then obtain pre post where e: "c # cs = pre @ sub @ post" by blast
    show "str_contains sub (c # cs)"
    proof (cases pre)
      case Nil
      then have "prefix sub (c # cs)" using e by (simp add: prefix_def)
      then show ?thesis by simp
    next
      case (Cons d pre')
      then have "cs = pre' @ sub @ post" using e by simp
      then show ?thesis using Cons.IH by auto
    qed
  qed
qed

lemma is_image_url_iff:
  "is_image_url text \<longleftrightarrow>
     (prefix ''http://'' text \<or> prefix ''https://'' text) \<and>
     (\<exists>ext pre post. ext \<in> set [''.jpg'', ''.jpeg'', ''.png'', ''.gif'', ''.webp'']
        \<and> lower text = pre @ ext @ post)"
  unfolding is_image_url_def list_ex_iff str_contains_iff by blast

text \<open>The three coroutines on an answer of the formatting API that is not 200.\<close>

lemma api_error_text:
  assumes "post_outcome w = Inr resp" "status resp \<noteq> 200" "body_text resp = Inr error_text"
    and "\<And>n. chat_outcome w n = None"
  shows "process_text w text tr =
     (Inr (), tr @ [AddReaction Hourglass, Post (FormatText text), ClearReactions,
                    AddReaction CrossMark,
                    Reply (''Error: '' @
                      (case body_json resp of
                         Inr (JDict kvs) \<Rightarrow>
                           (case map_of kvs ''detail'' of
                              Some d \<Rightarrow> format_value w d
                            | None \<Rightarrow> ''Unknown error'')
                       | _ \<Rightarrow> error_text))])"
  using assms
  by (simp add: process_text_def handle_errors_def relay_response_def error_detail_def
        dict_get_def format_value_def io_defs split: sum.splits json.splits option.splits)

lemma api_error_image:
  assumes "post_outcome w = Inr resp" "status resp \<noteq> 200" "body_text resp = Inr error_text"
    and "\<And>n. chat_outcome w n = None" and "payload a = Inr image_data"
  shows "process_image w a tr =
     (Inr (), tr @ [AddReaction Hourglass, ReadAttachment (filename a),
                    Post (FormatImage image_data (filename a) (content_type a)),
                    ClearReactions, AddReaction CrossMark,
                    Reply (''Error: '' @
                      (case body_json resp of
                         Inr (JDict kvs) \<Rightarrow>
                           (case map_of kvs ''detail'' of
                              Some d \<Rightarrow> format_value w d
                            | None \<Rightarrow> ''Unknown error'')
                       | _ \<Rightarrow> error_text))])"
  using assms
  by (simp add: process_image_def handle_errors_def relay_response_def error_detail_def
        dict_get_def format_value_def io_defs split: sum.splits json.splits option.splits)

lemma api_error_image_url:
  assumes "post_outcome w = Inr resp" "status resp \<noteq> 200" "body_text resp = Inr error_text"
    and "\<And>n. chat_outcome w n = None"
    and "get_outcome w = Inr d" "dl_status d = 200" "dl_read d = Inr image_data"
  shows "process_image_url w url tr =
     (Inr (), tr @ [AddReaction Hourglass, Get url,
                    Post (FormatImage image_data (last (split_on (CHR ''/'') url))
                            (Some (case dl_content_type d of Some t \<Rightarrow> t | None \<Rightarrow> ''image/jpeg''))),
                    ClearReactions, AddReaction CrossMark,
                    Reply (''Error: '' @
                      (case body_json resp of
                         Inr (JDict kvs) \<Rightarrow>
                           (case map_of kvs ''detail'' of
                              Some d \<Rightarrow> format_value w d
                            | None \<Rightarrow> ''Unknown error'')
                       | _ \<Rightarrow> error_text))])"
  using assms
  by (simp add: process_image_url_def handle_errors_def relay_response_def error_detail_def
        dict_get_def format_value_def io_defs Let_def split: sum.splits json.splits option.splits)

text \<open>The replies to an answer 200, for a text of one chunk and for a text of none.\<close>

lemma split_message_fallback: "split_message ''Error: No dates found'' = [''Error: No dates found'']"
  by (simp add: split_message_def newline_def MAX_DISCORD_LENGTH_def strip_def isspace_def)

lemma reply_result_single:
  assumes "\<And>n. chat_outcome w n = None"
    and "dict_get result ''formatted_dates'' (JStr ''Error: No dates found'') = Inr (JStr s)"
    and "split_message s = [chunk]"
  shows "reply_result w result tr = (Inr (), tr @ [Reply (first_reply chunk)])"
  using assms by (simp add: reply_result_def split_message_of_def io_defs)

lemma reply_result_empty:
  assumes "dict_get result ''formatted_dates'' (JStr ''Error: No dates found'') = Inr (JStr s)"
    and "split_message s = []"
  shows "reply_result w result tr = (Inl (IndexError ''list index out of range''), tr)"
  using assms by (simp add: reply_result_def split_message_of_def io_defs)

lemma missing_dates_text:
  assumes "post_outcome w = Inr resp" "status resp = 200" "body_json resp = Inr (JDict kvs)"
    and "map_of kvs ''formatted_dates'' = None" and "\<And>n. chat_outcome w n = None"
  shows "process_text w text tr =
     (Inr (), tr @ [AddReaction Hourglass, Post (FormatText text),
                    Reply (first_reply ''Error: No dates found'')])"
proof -
  have g: "dict_get (JDict kvs) ''formatted_dates'' (JStr ''Error: No dates found'')
             = Inr (JStr ''Error: No dates found'')"
    using assms(4) by (simp add: dict_get_def)
  note r = reply_result_single[OF assms(5) g split_message_fallback]
  show ?thesis using assms(1-3,5)
    by (simp add: process_text_def handle_errors_def relay_response_def r io_defs)
qed

lemma missing_dates_image:
  assumes "post_outcome w = Inr resp" "status resp = 200" "body_json resp = Inr (JDict kvs)"
    and "map_of kvs ''formatted_dates'' = None" and "\<And>n. chat_outcome w n = None"
    and "payload a = Inr image_data"
  shows "process_image w a tr =
     (Inr (), tr @ [AddReaction Hourglass, ReadAttachment (filename a),
                    Post (FormatImage image_data (filename a) (content_type a)),
                    Reply (first_reply ''Error: No dates found'')])"
proof -
  have g: "dict_get (JDict kvs) ''formatted_dates'' (JStr ''Error: No dates found'')
             = Inr (JStr ''Error: No dates found'')"
    using assms(4) by (simp add: dict_get_def)
  note r = reply_result_single[OF assms(5) g split_message_fallback]
  show ?thesis using assms(1-3,5,6)
    by (simp add: process_image_def handle_errors_def relay_response_def r io_defs)
qed

lemma missing_dates_image_url:
  assumes "post_outcome w = Inr resp" "status resp = 200" "body_json resp = Inr (JDict kvs)"
    and "map_of kvs ''formatted_dates'' = None" and "\<And>n. chat_outcome w n = None"
    and "get_outcome w = Inr d" "dl_status d = 200" "dl_read d = Inr image_data"
  shows "process_image_url w url tr =
     (Inr (), tr @ [AddReaction Hourglass, Get url,
                    Post (FormatImage image_data (last (split_on (CHR ''/'') url))
                            (Some (case dl_content_type d of Some t \<Rightarrow> t | None \<Rightarrow> ''image/jpeg''))),
                    Reply (first_reply ''Error: No dates found'')])"
proof -
  have g: "dict_get (JDict kvs) ''formatted_dates'' (JStr ''Error: No dates found'')
             = Inr (JStr ''Error: No dates found'')"
    using assms(4) by (simp add: dict_get_def)
  note r = reply_result_single[OF assms(5) g split_message_fallback]
  show ?thesis using assms(1-3,5-8)
    by (simp add: process_image_url_def handle_errors_def relay_response_def r io_defs Let_def)
qed

lemma empty_dates_text:
  assumes "post_outcome w = Inr resp" "status resp = 200" "body_json resp = Inr (JDict kvs)"
    and "map_of kvs ''formatted_dates'' = Some (JStr [])" and "\<And>n. chat_outcome w n = None"
  shows "process_text w text tr =
     (Inr (), tr @ [AddReaction Hourglass, Post (FormatText text),
                    ClearReactions, AddReaction CrossMark,
                    Reply ''Error: list index out of range''])"
proof -
  have g: "dict_get (JDict kvs) ''formatted_dates'' (JStr ''Error: No dates found'') = Inr (JStr [])"
    using assms(4) by (simp add: dict_get_def)
  have e: "split_message [] = []" by (simp add: split_message_def MAX_DISCORD_LENGTH_def)
  note r = reply_result_empty[OF g e]
  show ?thesis using assms(1-3,5)
    by (simp add: process_text_def handle_errors_def relay_response_def report_failure_def r io_defs)
qed

section \<open>Properties of the dispatcher\<close>

text \<open>
  C6. A message that does not mention the bot, or that the bot wrote itself, leaves the
  actions as they were: no status marker, no reply, no read and no outbound HTTP call is
  attempted, and the handler returns.
\<close>

theorem irrelevant_message_no_effect:
  "\<not> mentions_bot m \<or> author m = bot_id w \<Longrightarrow> on_message w m tr = (Inr (), tr)"
  by (auto simp: on_message_def ret_def)

theorem irrelevant_message_no_effect_witness:
  "on_message (example_world (Inl (TimeoutError [])) (Inl (TimeoutError [])))
     (example_message 3 ''hello'' False) [] = (Inr (), [])
   \<and> on_message (example_world (Inl (TimeoutError [])) (Inl (TimeoutError [])))
     (example_message 7 ''<@7> hello'' True) [] = (Inr (), [])"
  using irrelevant_message_no_effect[of "example_message 3 ''hello'' False"
          "example_world (Inl (TimeoutError [])) (Inl (TimeoutError []))" "[]"]
        irrelevant_message_no_effect[of "example_message 7 ''<@7> hello'' True"
          "example_world (Inl (TimeoutError [])) (Inl (TimeoutError []))" "[]"]
  by simp

text \<open>
  C8. A relevant message whose text is empty once the mentions are removed and the rest is
  stripped, and that has no attachment: the one action of the dispatch is the reply that
  asks for input (no marker is set, nothing is sent to the API), and the handler ends with
  the outcome of that reply.
\<close>

theorem missing_input_reply:
  assumes "mentions_bot m" "author m \<noteq> bot_id w"
    and "stripped_content w m = []" "attachments m = []"
  shows "on_message w m tr =
           (case chat_outcome w (length tr) of None \<Rightarrow> Inr () | Some e \<Rightarrow> Inl e,
            tr @ [Reply ''Please provide some tour dates, an image, or an image URL.''])"
  using assms by (simp add: on_message_def chat_def split: option.splits)

theorem missing_input_reply_witness:
  "stripped_content (example_world (Inl (TimeoutError [])) (Inl (TimeoutError [])))
     (example_message 3 ''<@7>  '' True) = []
   \<and> on_message (example_world (Inl (TimeoutError [])) (Inl (TimeoutError [])))
     (example_message 3 ''<@7>  '' True) [] =
       (Inr (), [Reply ''Please provide some tour dates, an image, or an image URL.''])"
proof -
  have s: "stripped_content (example_world (Inl (TimeoutError [])) (Inl (TimeoutError [])))
     (example_message 3 ''<@7>  '' True) = []"
    by code_simp
  show ?thesis
    using s missing_input_reply[of "example_message 3 ''<@7>  '' True"
          "example_world (Inl (TimeoutError [])) (Inl (TimeoutError []))" "[]"]
    by simp
qed

text \<open>
  C3, as stated, fails: the text \<open>http://a.png/b\<close> ends in none of the extensions, yet the
  dispatcher downloads it as an image (the \<open>Get\<close> among the actions) instead of sending
  it to the API as text.
\<close>

theorem dispatch_url_counterexample:
  "on_message (example_world (Inl (TimeoutError [])) (Inl (TimeoutError [])))
     (example_message 3 ''<@7> http://a.png/b'' True) [] =
   (Inr (), [AddReaction Hourglass, AddReaction Hourglass, Get ''http://a.png/b'',
             ClearReactions, AddReaction CrossMark,
             Reply ''Error: Request timed out. Please try again.''])
   \<and> \<not> list_ex (\<lambda>ext. suffix ext (lower ''http://a.png/b''))
           [''.jpg'', ''.jpeg'', ''.png'', ''.gif'', ''.webp'']"
  by code_simp

text \<open>
  C3, amended. For a relevant message with text or an attachment, once the working marker
  is set, and when the first attachment (if there is one) declares a content type \<open>t\<close>:
  the dispatcher runs the image-attachment path if there is an attachment and \<open>t\<close> begins
  with \<open>image/\<close>; otherwise the image-URL path if the stripped text begins with
  \<open>http://\<close> or \<open>https://\<close> and its lowercase form contains one of the five extensions
  anywhere; otherwise the text path. Whatever the chosen path raises goes to the handler
  of the dispatcher.
\<close>

theorem dispatch_priority:
  assumes "mentions_bot m" "author m \<noteq> bot_id w"
    and "\<not> (stripped_content w m = [] \<and> attachments m = [])"
    and "chat_outcome w (length tr) = None"
    and "attachments m \<noteq> [] \<Longrightarrow> content_type (hd (attachments m)) = Some t"
  shows "on_message w m tr =
     try_except
       (if attachments m \<noteq> [] \<and> prefix ''image/'' t
        then process_image w (hd (attachments m))
        else if (prefix ''http://'' (stripped_content w m)
                 \<or> prefix ''https://'' (stripped_content w m))
                \<and> (\<exists>ext pre post.
                      ext \<in> set [''.jpg'', ''.jpeg'', ''.png'', ''.gif'', ''.webp'']
                      \<and> lower (stripped_content w m) = pre @ ext @ post)
        then process_image_url w (stripped_content w m)
        else process_text w (stripped_content w m))
       (\<lambda>e. io_seq (chat w ClearReactions)
            (io_seq (chat w (AddReaction CrossMark))
                    (chat w (Reply (''Error: '' @ exn_str e)))))
       (tr @ [AddReaction Hourglass])"
proof -
  let ?text = "stripped_content w m"
  let ?h = "\<lambda>e. io_seq (chat w ClearReactions)
            (io_seq (chat w (AddReaction CrossMark))
                    (chat w (Reply (''Error: '' @ exn_str e))))"
  let ?body = "io_bind (of_result (classify m ?text))
                     (\<lambda>k. case k of
                             ImageAttachment a \<Rightarrow> process_image w a
                           | ImageUrl \<Rightarrow> process_image_url w ?text
                           | Text \<Rightarrow> process_text w ?text)"
  have 1: "on_message w m tr = try_except ?body ?h (tr @ [AddReaction Hourglass])"
    using assms(1-4) by (auto simp: on_message_def Let_def io_seq_def io_bind_def chat_def)
  have 2: "classify m ?text =
      Inr (if attachments m \<noteq> [] \<and> prefix ''image/'' t then ImageAttachment (hd (attachments m))
           else if is_image_url ?text then ImageUrl else Text)"
    using assms(5) by (cases "attachments m") (auto simp: classify_def)
  have 3: "?body = (if attachments m \<noteq> [] \<and> prefix ''image/'' t
        then process_image w (hd (attachments m))
        else if is_image_url ?text
        then process_image_url w ?text
        else process_text w ?text)"
    unfolding 2 by (auto simp: io_bind_def of_result_def fun_eq_iff split: prod.splits sum.splits)
  show ?thesis unfolding 1 3 is_image_url_iff ..
qed

theorem dispatch_priority_witness:
  "on_message (example_world (Inl (TimeoutError [])) (Inl (TimeoutError [])))
     (example_message 3 ''<@7> https://x.org/a.PNG'' True) [] =
   (Inr (), [AddReaction Hourglass, AddReaction Hourglass, Get ''https://x.org/a.PNG'',
             ClearReactions, AddReaction CrossMark,
             Reply ''Error: Request timed out. Please try again.''])"
proof -
  let ?w = "example_world (Inl (TimeoutError [])) (Inl (TimeoutError []))"
  let ?m = "example_message 3 ''<@7> https://x.org/a.PNG'' True"
  have s: "stripped_content ?w ?m = ''https://x.org/a.PNG''"
    by code_simp
  have u: "is_image_url ''https://x.org/a.PNG''"
    by code_simp
  have p: "process_image_url ?w ''https://x.org/a.PNG'' [AddReaction Hourglass] =
      (Inr (), [AddReaction Hourglass, AddReaction Hourglass, Get ''https://x.org/a.PNG'',
             ClearReactions, AddReaction CrossMark,
             Reply ''Error: Request timed out. Please try again.''])"
    by (simp add: process_image_url_def handle_errors_def report_failure_def io_defs)
  have "on_message ?w ?m [] =
     try_except (process_image_url ?w ''https://x.org/a.PNG'')
       (\<lambda>e. io_seq (chat ?w ClearReactions)
            (io_seq (chat ?w (AddReaction CrossMark))
                    (chat ?w (Reply (''Error: '' @ exn_str e)))))
       ([] @ [AddReaction Hourglass])"
    using dispatch_priority[of ?m ?w "[]" "[]"] u[unfolded is_image_url_iff]
    by (simp add: s)
  then show ?thesis by (simp add: try_except_def p)
qed

section \<open>Properties of the relay pipeline\<close>

text \<open>
  C5. When the formatting API answers with a status other than 200, its body can be read
  and the calls of the chat platform succeed, each of the three coroutines ends, after its
  request, with exactly three more actions: the markers are cleared, the failure marker is
  set, and the reply is \<open>Error: \<close> followed by the error detail. The detail is the \<open>detail\<close>
  field when the body parses to a JSON object (\<open>Unknown error\<close> when the object has no such
  field), and the raw text of the body when parsing raises or gives anything but an object.
\<close>

theorem api_error_reported:
  assumes "post_outcome w = Inr resp" "status resp \<noteq> 200" "body_text resp = Inr error_text"
    and "\<And>n. chat_outcome w n = None"
  shows
    "let failure = [ClearReactions, AddReaction CrossMark,
                    Reply (''Error: '' @
                      (case body_json resp of
                         Inr (JDict kvs) \<Rightarrow>
                           (case map_of kvs ''detail'' of
                              Some detail \<Rightarrow> format_value w detail
                            | None \<Rightarrow> ''Unknown error'')
                       | _ \<Rightarrow> error_text))]
     in process_text w text tr =
          (Inr (), tr @ [AddReaction Hourglass, Post (FormatText text)] @ failure)
      \<and> (payload a = Inr image_data \<longrightarrow>
           process_image w a tr =
             (Inr (), tr @ [AddReaction Hourglass, ReadAttachment (filename a),
                            Post (FormatImage image_data (filename a) (content_type a))]
                         @ failure))
      \<and> (get_outcome w = Inr d \<and> dl_status d = 200 \<and> dl_read d = Inr url_data \<longrightarrow>
           process_image_url w url tr =
             (Inr (), tr @ [AddReaction Hourglass, Get url,
                            Post (FormatImage url_data (last (split_on (CHR ''/'') url))
                                    (Some (case dl_content_type d of
                                             Some t \<Rightarrow> t | None \<Rightarrow> ''image/jpeg'')))]
                         @ failure))"
  using api_error_text[OF assms, of "text" tr] api_error_image[OF assms, of a image_data tr]
    api_error_image_url[OF assms, of d url_data url tr]
  by (simp add: Let_def)

theorem api_error_reported_witness:
  \<open>process_text
     (example_world (Inr example_download)
        (Inr \<lparr>status = 500, body_text = Inr ''{"detail": "bad input"}'',
              body_json = Inr (JDict [(''detail'', JStr ''bad input'')])\<rparr>))
     ''hi'' [] =
     (Inr (), [AddReaction Hourglass, Post (FormatText ''hi''), ClearReactions,
               AddReaction CrossMark, Reply ''Error: bad input''])
   \<and> process_image
     (example_world (Inr example_download)
        (Inr \<lparr>status = 500, body_text = Inr ''{"detail": "bad input"}'',
              body_json = Inr (JDict [(''detail'', JStr ''bad input'')])\<rparr>))
     example_attachment [] =
     (Inr (), [AddReaction Hourglass, ReadAttachment ''tour.png'',
               Post (FormatImage ''PNG'' ''tour.png'' (Some ''image/png'')), ClearReactions,
               AddReaction CrossMark, Reply ''Error: bad input''])
   \<and> process_image_url
     (example_world (Inr example_download)
        (Inr \<lparr>status = 500, body_text = Inr ''{"detail": "bad input"}'',
              body_json = Inr (JDict [(''detail'', JStr ''bad input'')])\<rparr>))
     ''http://x.org/img/a.png'' [] =
     (Inr (), [AddReaction Hourglass, Get ''http://x.org/img/a.png'',
               Post (FormatImage ''PNG'' ''a.png'' (Some ''image/jpeg'')), ClearReactions,
               AddReaction CrossMark, Reply ''Error: bad input''])\<close>
  using api_error_reported[of
      \<open>example_world (Inr example_download)
        (Inr \<lparr>status = 500, body_text = Inr ''{"detail": "bad input"}'',
              body_json = Inr (JDict [(''detail'', JStr ''bad input'')])\<rparr>)\<close>
      \<open>\<lparr>status = 500, body_text = Inr ''{"detail": "bad input"}'',
              body_json = Inr (JDict [(''detail'', JStr ''bad input'')])\<rparr>\<close>
      \<open>''{"detail": "bad input"}''\<close> "''hi''" "[]" example_attachment "''PNG''"
      example_download "''PNG''" "''http://x.org/img/a.png''"]
  by (simp add: Let_def format_value_def)

text \<open>
  C7. When the formatting API answers 200 with a JSON object that has no field
  \<open>formatted_dates\<close>, and the calls of the chat platform succeed, each coroutine replies
  once, with the literal text \<open>Error: No dates found\<close> in the decoration of a first chunk.
\<close>

theorem missing_dates_fallback:
  assumes "post_outcome w = Inr resp" "status resp = 200" "body_json resp = Inr (JDict kvs)"
    and "map_of kvs ''formatted_dates'' = None" and "\<And>n. chat_outcome w n = None"
  shows
    "let answer = [Reply (first_reply ''Error: No dates found'')]
     in process_text w text tr =
          (Inr (), tr @ [AddReaction Hourglass, Post (FormatText text)] @ answer)
      \<and> (payload a = Inr image_data \<longrightarrow>
           process_image w a tr =
             (Inr (), tr @ [AddReaction Hourglass, ReadAttachment (filename a),
                            Post (FormatImage image_data (filename a) (content_type a))]
                         @ answer))
      \<and> (get_outcome w = Inr d \<and> dl_status d = 200 \<and> dl_read d = Inr url_data \<longrightarrow>
           process_image_url w url tr =
             (Inr (), tr @ [AddReaction Hourglass, Get url,
                            Post (FormatImage url_data (last (split_on (CHR ''/'') url))
                                    (Some (case dl_content_type d of
                                             Some t \<Rightarrow> t | None \<Rightarrow> ''image/jpeg'')))]
                         @ answer))"
  using missing_dates_text[OF assms, of "text" tr] missing_dates_image[OF assms, of a image_data tr]
    missing_dates_image_url[OF assms, of d url_data url tr]
  by (simp add: Let_def)

theorem missing_dates_fallback_witness:
  \<open>process_text
     (example_world (Inr example_download)
        (Inr \<lparr>status = 200, body_text = Inr ''{}'', body_json = Inr (JDict [])\<rparr>))
     ''hi'' [] =
     (Inr (), [AddReaction Hourglass, Post (FormatText ''hi''),
               Reply (''```'' @ [newline] @ ''Error: No dates found'' @ [newline] @ ''```''
                      @ [newline, newline]
                      @ ''Please double-check all info as Better Lover can make mistakes.'')])
   \<and> process_image
     (example_world (Inr example_download)
        (Inr \<lparr>status = 200, body_text = Inr ''{}'', body_json = Inr (JDict [])\<rparr>))
     example_attachment [] =
     (Inr (), [AddReaction Hourglass, ReadAttachment ''tour.png'',
               Post (FormatImage ''PNG'' ''tour.png'' (Some ''image/png'')),
               Reply (''```'' @ [newline] @ ''Error: No dates found'' @ [newline] @ ''```''
                      @ [newline, newline]
                      @ ''Please double-check all info as Better Lover can make mistakes.'')])\<close>
  using missing_dates_fallback[of
      \<open>example_world (Inr example_download)
        (Inr \<lparr>status = 200, body_text = Inr ''{}'', body_json = Inr (JDict [])\<rparr>)\<close>
      \<open>\<lparr>status = 200, body_text = Inr ''{}'', body_json = Inr (JDict [])\<rparr>\<close>
      "[]" "''hi''" "[]" example_attachment "''PNG''"]
  by (simp add: Let_def first_reply_def)

text \<open>
  C10. When the formatting API answers 200 with \<open>formatted_dates\<close> the empty string, the
  text has no chunk, the first reply raises the \<open>IndexError\<close> of \<open>chunks[0]\<close>, and
  \<open>process_text\<close> ends with the markers cleared, the failure marker set and the reply
  \<open>Error: list index out of range\<close>; no formatted reply is sent.
\<close>

theorem empty_dates_index_error:
  assumes "post_outcome w = Inr resp" "status resp = 200" "body_json resp = Inr (JDict kvs)"
    and "map_of kvs ''formatted_dates'' = Some (JStr [])" and "\<And>n. chat_outcome w n = None"
  shows "split_message [] = []
     \<and> reply_result w (JDict kvs) tr' = (Inl (IndexError ''list index out of range''), tr')
     \<and> process_text w text tr =
          (Inr (), tr @ [AddReaction Hourglass, Post (FormatText text),
                         ClearReactions, AddReaction CrossMark,
                         Reply ''Error: list index out of range''])"
proof -
  have g: "dict_get (JDict kvs) ''formatted_dates'' (JStr ''Error: No dates found'') = Inr (JStr [])"
    using assms(4) by (simp add: dict_get_def)
  have e: "split_message [] = []" by (simp add: split_message_def MAX_DISCORD_LENGTH_def)
  show ?thesis using e reply_result_empty[OF g e] empty_dates_text[OF assms] by simp
qed

theorem empty_dates_index_error_witness:
  \<open>process_text
     (example_world (Inr example_download)
        (Inr \<lparr>status = 200, body_text = Inr ''{"formatted_dates": ""}'',
              body_json = Inr (JDict [(''formatted_dates'', JStr [])])\<rparr>))
     ''hi'' [] =
     (Inr (), [AddReaction Hourglass, Post (FormatText ''hi''), ClearReactions,
               AddReaction CrossMark, Reply ''Error: list index out of range''])\<close>
  using empty_dates_index_error[of
      \<open>example_world (Inr example_download)
        (Inr \<lparr>status = 200, body_text = Inr ''{"formatted_dates": ""}'',
              body_json = Inr (JDict [(''formatted_dates'', JStr [])])\<rparr>)\<close>
      \<open>\<lparr>status = 200, body_text = Inr ''{"formatted_dates": ""}'',
              body_json = Inr (JDict [(''formatted_dates'', JStr [])])\<rparr>\<close>
      "[(''formatted_dates'', JStr [])]" "[]" "''hi''" "[]"]
  by simp

end
